theory Spec2Isabelle
  imports Main "HOL-Library.AList" "HOL-Library.Sublist"
begin

section \<open>Paths, identifiers and the index store\<close>

text \<open>
  A \<open>Path\<close> is \<^verbatim>\<open>readonly string[]\<close>: the segments that name one source fragment.
\<close>

type_synonym Path = "string list"

text \<open>
  Modelled from the spec: the \<open>ElemID\<close> class (package adapter-api) is not among the
  sources. The spec's data model describes an identifier as an ordered sequence of string
  segments that is rendered dot-joined, with nested-id construction appending segments and
  a parse from the rendered string. \<open>join\<close> and \<open>split\<close> are JavaScript's
  \<^verbatim>\<open>Array.prototype.join\<close> and \<^verbatim>\<open>String.prototype.split\<close>.

  The spec leaves the extraction of the top-level parent open ("the first 2-3 segments
  depending on element kind"), so \<open>createTopLevelParentID\<close> is a parameter of every
  function that calls it.
\<close>

type_synonym ElemID = "string list"

fun join :: "string \<Rightarrow> string list \<Rightarrow> string" where
  "join sep [] = []"
| "join sep [x] = x"
| "join sep (x # y # ys) = x @ sep @ join sep (y # ys)"

fun split :: "char \<Rightarrow> string \<Rightarrow> string list" where
  "split sep [] = [[]]"
| "split sep (c # cs) =
     (if c = sep then [] # split sep cs
      else (case split sep cs of [] \<Rightarrow> [[c]] | w # ws \<Rightarrow> (c # w) # ws))"

definition getFullNameParts :: "ElemID \<Rightarrow> string list" where
  "getFullNameParts elemId = elemId"

definition getFullName :: "ElemID \<Rightarrow> string" where
  "getFullName elemId = join ''.'' (getFullNameParts elemId)"

definition createNestedID :: "ElemID \<Rightarrow> string list \<Rightarrow> ElemID" where
  "createNestedID elemId nameParts = elemId @ nameParts"

definition fromFullName :: "string \<Rightarrow> ElemID" where
  "fromFullName fullName = split CHR ''.'' fullName"

text \<open>
  \<^verbatim>\<open>type PathHint = {key: string; value: Path[]}\<close>, which is also the
  \<^verbatim>\<open>RemoteMapEntry<Path[]>\<close> the store is written with.
\<close>

record PathHint =
  key :: string
  "value" :: "Path list"

text \<open>
  Modelled from the spec: the \<open>RemoteMap\<close> behind \<^verbatim>\<open>PathIndex = RemoteMap<Path[]>\<close>
  is not among the sources. The spec gives its contract: \<open>get(key)\<close> returns the list or
  absent, \<open>setAll\<close> upserts the entries in order, \<open>deleteAll\<close> removes the given keys,
  \<open>clear\<close> empties the store and \<open>keys\<close> enumerates the keys. The store is an
  association list read through \<open>map_of\<close>; what a caller can observe of it is \<open>get\<close>
  at every key. Awaiting a store call is the call itself: the code awaits every one before
  it goes on.
\<close>

type_synonym PathIndex = "(string \<times> Path list) list"

definition get :: "PathIndex \<Rightarrow> string \<Rightarrow> Path list option" where
  "get index k = map_of index k"

definition keys :: "PathIndex \<Rightarrow> string list" where
  "keys index = map fst index"

definition setAll :: "PathIndex \<Rightarrow> PathHint list \<Rightarrow> PathIndex" where
  "setAll index entries = foldl (\<lambda>m e. AList.update (key e) (value e) m) index entries"

definition deleteAll :: "PathIndex \<Rightarrow> string list \<Rightarrow> PathIndex" where
  "deleteAll index ks = filter (\<lambda>e. fst e \<notin> set ks) index"

definition clear :: "PathIndex \<Rightarrow> PathIndex" where
  "clear index = []"

section \<open>Lookup: \<open>getFromPathIndex\<close>\<close>

text \<open>
  The \<^verbatim>\<open>do ... while\<close> loop of \<open>getFromPathIndex\<close>, with its three variables
  \<open>idParts\<close>, \<open>isExactMatch\<close> and \<open>key\<close>. \<^verbatim>\<open>idParts.pop()\<close> is \<open>butlast\<close>
  (both leave an empty list empty). The loop runs again while the popped list is
  non-empty and the key just looked up is not the top-level key.
\<close>

function getFromPathIndex_loop :: "PathIndex \<Rightarrow> string \<Rightarrow> string list \<Rightarrow> bool \<Rightarrow> Path list" where
  "getFromPathIndex_loop index topLevelKey idParts isExactMatch =
     (let key = join ''.'' idParts;
          pathHints = get index key
      in if pathHints \<noteq> None \<and> length (the pathHints) > 0
         then (if isExactMatch then the pathHints else [hd (the pathHints)])
         else (let idParts' = butlast idParts
               in if length idParts' > 0 \<and> key \<noteq> topLevelKey
                  then getFromPathIndex_loop index topLevelKey idParts' False
                  else []))"
  by pat_completeness auto
termination
  by (relation "measure (\<lambda>(index, topLevelKey, idParts, isExactMatch). length idParts)") auto

declare getFromPathIndex_loop.simps [simp del]

definition getFromPathIndex :: "(ElemID \<Rightarrow> ElemID) \<Rightarrow> ElemID \<Rightarrow> PathIndex \<Rightarrow> Path list" where
  "getFromPathIndex createTopLevelParentID elemId index =
     getFromPathIndex_loop index (getFullName (createTopLevelParentID elemId))
       (getFullNameParts elemId) True"

text \<open>
  The vocabulary of the lookup's description. A key is \<open>found\<close> when the store holds a
  non-empty list for it. \<open>truncations parts\<close> are the non-empty prefixes of \<open>parts\<close>,
  longest first; \<open>examinedKeys\<close> are their keys down to and including the first one that
  equals the top-level key; \<open>ancestorKeys\<close> are the keys looked up after the exact one.
\<close>

definition found :: "PathIndex \<Rightarrow> string \<Rightarrow> bool" where
  "found index k = (case get index k of None \<Rightarrow> False | Some pathHints \<Rightarrow> length pathHints > 0)"

definition truncations :: "string list \<Rightarrow> string list list" where
  "truncations parts = map (\<lambda>n. take n parts) (rev [1..<Suc (length parts)])"

definition examinedKeys :: "string \<Rightarrow> string list \<Rightarrow> string list" where
  "examinedKeys topLevelKey parts =
     (let ks = map (join ''.'') (truncations parts)
      in takeWhile (\<lambda>k. k \<noteq> topLevelKey) ks @ take 1 (dropWhile (\<lambda>k. k \<noteq> topLevelKey) ks))"

definition ancestorKeys :: "string \<Rightarrow> string list \<Rightarrow> string list" where
  "ancestorKeys topLevelKey parts =
     (if join ''.'' parts = topLevelKey then [] else examinedKeys topLevelKey (butlast parts))"

section \<open>Values, fragments and elements\<close>

text \<open>
  A \<open>Value\<close> is what a JavaScript value is to the hint computer:
  \<^item> \<open>Undefined\<close>;
  \<^item> \<open>PlainObject proto kvs\<close>, an object with the own enumerable properties \<open>kvs\<close>, in
    the order \<^verbatim>\<open>Object.keys\<close> lists them, and the prototype \<open>proto\<close>:
    \<^verbatim>\<open>Object.prototype\<close> (an object literal, a parsed object) or \<open>null\<close>
    (\<^verbatim>\<open>Object.create(null)\<close>);
  \<^item> \<open>ListValue\<close>, an array;
  \<^item> \<open>FunctionValue name\<close>, the function \<^verbatim>\<open>Object.prototype[name]\<close>, and
    \<open>ObjectPrototype\<close>, the object \<^verbatim>\<open>Object.prototype\<close> itself: what a property read finds
    on the prototype of an object that has no such property of its own;
  \<^item> \<open>Primitive\<close>, anything else (a string, a number, a boolean, \<open>null\<close>, an instance
    of a class), by its text.

  \<open>property v k\<close> is \<^verbatim>\<open>v[k]\<close>: the own property, and where there is none the member
  of the prototype. \<open>objectPrototypeFunctions\<close> are the function members of
  \<^verbatim>\<open>Object.prototype\<close> (ECMAScript, with its annex B); its remaining member is the accessor
  \<^verbatim>\<open>__proto__\<close>, which reads the prototype: \<^verbatim>\<open>Object.prototype\<close> for an object that
  has it as its prototype, \<open>null\<close> for \<^verbatim>\<open>Object.prototype\<close> itself. The code reads
  properties of plain objects only.

  \<open>isPlainObject\<close> and \<open>uniq\<close> are lodash's: an object whose prototype is
  \<^verbatim>\<open>Object.prototype\<close> or \<open>null\<close> is plain (so is \<^verbatim>\<open>Object.prototype\<close>, its prototype
  being \<open>null\<close>), a function is not; \<open>uniq\<close> keeps the first occurrence of every entry.
  \<open>isDefined\<close> is lowerdash's \<^verbatim>\<open>val !== undefined\<close>.
\<close>

datatype Proto = ObjectProto | NullProto

datatype Value =
    Undefined
  | Primitive string
  | ListValue "Value list"
  | PlainObject Proto "(string \<times> Value) list"
  | FunctionValue string
  | ObjectPrototype

type_synonym Values = "(string \<times> Value) list"

text \<open>\<^verbatim>\<open>type Fragment<T> = {value: T; path: Path}\<close>, with the fields named
  \<open>fvalue\<close> and \<open>fpath\<close>.\<close>

record 'a Fragment =
  fvalue :: 'a
  fpath :: Path

definition objectPrototypeFunctions :: "string list" where
  "objectPrototypeFunctions =
     [''constructor'', ''__defineGetter__'', ''__defineSetter__'', ''hasOwnProperty'',
      ''__lookupGetter__'', ''__lookupSetter__'', ''isPrototypeOf'', ''propertyIsEnumerable'',
      ''toString'', ''valueOf'', ''toLocaleString'']"

definition objectPrototypeMembers :: "string list" where
  "objectPrototypeMembers = objectPrototypeFunctions @ [''__proto__'']"

definition isPlainObject :: "Value \<Rightarrow> bool" where
  "isPlainObject v = (case v of PlainObject proto kvs \<Rightarrow> True | ObjectPrototype \<Rightarrow> True | _ \<Rightarrow> False)"

definition Object_keys :: "Value \<Rightarrow> string list" where
  "Object_keys v = (case v of PlainObject proto kvs \<Rightarrow> map fst kvs | _ \<Rightarrow> [])"

definition property :: "Value \<Rightarrow> string \<Rightarrow> Value" where
  "property v k =
     (case v of
        PlainObject proto kvs \<Rightarrow>
          (case map_of kvs k of
             Some x \<Rightarrow> x
           | None \<Rightarrow>
               (case proto of
                  NullProto \<Rightarrow> Undefined
                | ObjectProto \<Rightarrow>
                    if k \<in> set objectPrototypeFunctions then FunctionValue k
                    else if k = ''__proto__'' then ObjectPrototype
                    else Undefined))
      | ObjectPrototype \<Rightarrow>
          (if k \<in> set objectPrototypeFunctions then FunctionValue k
           else if k = ''__proto__'' then Primitive ''null''
           else Undefined)
      | _ \<Rightarrow> Undefined)"

definition isDefined :: "Value \<Rightarrow> bool" where
  "isDefined v = (v \<noteq> Undefined)"

fun uniq :: "'a list \<Rightarrow> 'a list" where
  "uniq [] = []"
| "uniq (x # xs) = x # uniq (filter (\<lambda>y. y \<noteq> x) xs)"

text \<open>
  A read of a property of \<open>undefined\<close> raises a \<open>TypeError\<close>. A function that can raise
  returns \<open>Inl TypeError\<close> then, and \<open>Inr\<close> its result otherwise. \<open>flatMapE\<close> is
  \<^verbatim>\<open>Array.prototype.flatMap\<close> with a callback that can raise: the first raise, in the
  order of the list, ends it.
\<close>

datatype error = TypeError

fun flatMapE :: "('a \<Rightarrow> error + 'b list) \<Rightarrow> 'a list \<Rightarrow> error + 'b list" where
  "flatMapE f [] = Inr []"
| "flatMapE f (x # xs) =
     (case f x of
        Inl e \<Rightarrow> Inl e
      | Inr ys \<Rightarrow> (case flatMapE f xs of Inl e \<Rightarrow> Inl e | Inr zs \<Rightarrow> Inr (ys @ zs)))"

text \<open>
  Modelled from the spec: the element classes (package adapter-api) are not among the
  sources. The spec describes an element as a tagged variant over ObjectType,
  InstanceElement and the other kinds, carrying an id, a mapping of annotation values and
  its kind's own structure: an ObjectType owns a mapping from field name to Field, an
  InstanceElement owns a value tree, a Field carries its own id and annotations. The code
  reads \<open>annotationRefTypes\<close> and \<open>path\<close> of every element. \<open>fields\<close> and
  \<open>instanceValue\<close> read the kind's structure (the code reads them after the type guards
  \<open>isObjectType\<close> and \<open>isInstanceElement\<close>). The mappings of annotation values, of
  instance values and of fields are ordinary objects, with \<^verbatim>\<open>Object.prototype\<close> as their
  prototype. A variable that holds an id is written \<open>elemId\<close>, \<open>elemID\<close> being the
  field.

  \<open>lookupField fs name\<close> is \<^verbatim>\<open>fields[name]\<close>: the field of that name (\<open>OwnField\<close>);
  where there is none and \<open>name\<close> names a member of \<^verbatim>\<open>Object.prototype\<close>, that member
  (\<open>InheritedMember\<close>), which is no Field and has neither \<open>elemID\<close> nor \<open>annotations\<close>;
  otherwise \<open>undefined\<close> (\<open>None\<close>).
\<close>

record Field =
  field_elemID :: ElemID
  field_annotations :: Values

datatype FieldSlot = OwnField Field | InheritedMember string

datatype ElementKind =
    ObjectType "(string \<times> Field) list"
  | InstanceElement Values
  | OtherElement

record Element =
  elemID :: ElemID
  annotationRefTypes :: "(string \<times> ElemID) list"
  annotations :: Values
  path :: "Path option"
  kind :: ElementKind

definition isObjectType :: "Element \<Rightarrow> bool" where
  "isObjectType e = (case kind e of ObjectType fs \<Rightarrow> True | _ \<Rightarrow> False)"

definition isInstanceElement :: "Element \<Rightarrow> bool" where
  "isInstanceElement e = (case kind e of InstanceElement v \<Rightarrow> True | _ \<Rightarrow> False)"

definition fields :: "Element \<Rightarrow> (string \<times> Field) list" where
  "fields e = (case kind e of ObjectType fs \<Rightarrow> fs | _ \<Rightarrow> [])"

definition instanceValue :: "Element \<Rightarrow> Values" where
  "instanceValue e = (case kind e of InstanceElement v \<Rightarrow> v | _ \<Rightarrow> [])"

definition lookupField :: "(string \<times> Field) list \<Rightarrow> string \<Rightarrow> FieldSlot option" where
  "lookupField fs name =
     (case map_of fs name of
        Some fld \<Rightarrow> Some (OwnField fld)
      | None \<Rightarrow> if name \<in> set objectPrototypeMembers then Some (InheritedMember name) else None)"

definition slotAnnotations :: "FieldSlot \<Rightarrow> Value" where
  "slotAnnotations s =
     (case s of
        OwnField fld \<Rightarrow> PlainObject ObjectProto (field_annotations fld)
      | InheritedMember name \<Rightarrow> Undefined)"

section \<open>The path-hint computer\<close>

text \<open>The recursion of \<open>getValuePathHints\<close> descends into the properties of plain
  objects, so the summed \<open>weight\<close> of the fragments' values decreases.\<close>

definition weight :: "Value \<Rightarrow> nat" where
  "weight v = 2 * size v + (if v = ObjectPrototype then 1 else 0)"

lemma size_map_of:
  "map_of kvs k = Some v \<Longrightarrow> size v < Suc (size_list (size_prod (\<lambda>x. 0) size) kvs)"
  by (induction kvs) (auto split: if_splits)

lemma weight_property:
  "isPlainObject v \<Longrightarrow> weight (property v k) < weight v"
  by (cases v)
     (auto simp: isPlainObject_def property_def weight_def dest: size_map_of
        split: option.splits Proto.splits)

lemma sum_weight_property:
  assumes "list_all (\<lambda>f. isPlainObject (fvalue f)) fragments" and "fragments \<noteq> []"
  shows "(\<Sum>f\<leftarrow>filter (\<lambda>f. isDefined (property (fvalue f) k)) fragments. weight (property (fvalue f) k))
           < (\<Sum>f\<leftarrow>fragments. weight (fvalue f))"
  using assms
proof (induction fragments)
  case Nil
  then show ?case by simp
next
  case (Cons f fs)
  have f: "weight (property (fvalue f) k) < weight (fvalue f)"
    using Cons.prems by (simp add: weight_property)
  show ?case
  proof (cases fs)
    case Nil
    then show ?thesis using f by simp
  next
    case (Cons g gs)
    then have "(\<Sum>f\<leftarrow>filter (\<lambda>f. isDefined (property (fvalue f) k)) fs. weight (property (fvalue f) k))
           < (\<Sum>f\<leftarrow>fs. weight (fvalue f))"
      using Cons.IH Cons.prems by simp
    then show ?thesis using f by simp
  qed
qed

function getValuePathHints :: "Value Fragment list \<Rightarrow> ElemID \<Rightarrow> PathHint list" where
  "getValuePathHints fragments elemId =
     (if length fragments = 1
      then [\<lparr>key = getFullName elemId, value = [fpath (fragments ! 0)]\<rparr>]
      else if list_all (\<lambda>f. isPlainObject (fvalue f)) fragments
      then (let allKeys = uniq (concat (map (\<lambda>f. Object_keys (fvalue f)) fragments))
            in concat (map (\<lambda>key. getValuePathHints
                 (map (\<lambda>f. \<lparr>fvalue = property (fvalue f) key, fpath = fpath f\<rparr>)
                    (filter (\<lambda>f. isDefined (property (fvalue f) key)) fragments))
                 (createNestedID elemId [key])) allKeys))
      else [])"
  by pat_completeness auto
termination
proof (relation "measure (\<lambda>(fragments, elemId). \<Sum>f\<leftarrow>fragments. weight (fvalue f))")
  show "wf (measure (\<lambda>(fragments, elemId). \<Sum>f\<leftarrow>fragments. weight (fvalue f)))"
    by simp
next
  fix fragments :: "Value Fragment list" and elemId :: ElemID and allKeys k
  assume len: "length fragments \<noteq> 1"
    and plain: "list_all (\<lambda>f. isPlainObject (fvalue f)) fragments"
    and keys: "allKeys = uniq (concat (map (\<lambda>f. Object_keys (fvalue f)) fragments))"
    and k: "k \<in> set allKeys"
  have "fragments \<noteq> []"
    using keys k by auto
  from sum_weight_property [OF plain this, of k]
  show "((map (\<lambda>f. \<lparr>fvalue = property (fvalue f) k, fpath = fpath f\<rparr>)
            (filter (\<lambda>f. isDefined (property (fvalue f) k)) fragments),
          createNestedID elemId [k]), fragments, elemId)
        \<in> measure (\<lambda>(fragments, elemId). \<Sum>f\<leftarrow>fragments. weight (fvalue f))"
    by (simp add: comp_def)
qed

declare getValuePathHints.simps [simp del]

definition getAnnotationTypesPathHints :: "Element Fragment list \<Rightarrow> PathHint list" where
  "getAnnotationTypesPathHints fragments =
     (let fragmentsWithNonEmptyAnnoTypes =
            filter (\<lambda>f. \<not> (annotationRefTypes (fvalue f) = [])) fragments
      in if length fragmentsWithNonEmptyAnnoTypes = 1
         then [\<lparr>key = getFullName
                   (createNestedID (elemID (fvalue (fragmentsWithNonEmptyAnnoTypes ! 0))) [''annotation'']),
                 value = [fpath (fragmentsWithNonEmptyAnnoTypes ! 0)]\<rparr>]
         else concat (map (\<lambda>f. map (\<lambda>annoKey.
                  \<lparr>key = getFullName (createNestedID (elemID (fvalue f)) [''annotation'', annoKey]),
                   value = [fpath f]\<rparr>) (map fst (annotationRefTypes (fvalue f))))
                fragmentsWithNonEmptyAnnoTypes))"

text \<open>\<open>getAnnotationPathHints\<close> reads \<^verbatim>\<open>fragments[0].value\<close>, which raises on the
  empty list.\<close>

definition getAnnotationPathHints :: "Element Fragment list \<Rightarrow> error + PathHint list" where
  "getAnnotationPathHints fragments =
     (if fragments = [] then Inl TypeError
      else (let elem = fvalue (fragments ! 0)
            in Inr (getValuePathHints
                 (map (\<lambda>f. \<lparr>fvalue = PlainObject ObjectProto (annotations (fvalue f)), fpath = fpath f\<rparr>)
                    fragments)
                 (if isInstanceElement elem then elemID elem
                  else createNestedID (elemID elem) [''attr'']))))"

text \<open>
  \<open>getFieldPathHints\<close> is typed on fragments of fields, and receives what
  \<^verbatim>\<open>fields[fieldName]\<close> gave: a field or an inherited member. Where the first fragment
  holds an inherited member, \<^verbatim>\<open>fragments[0].value.elemID\<close> is \<open>undefined\<close> and
  \<^verbatim>\<open>fragments[0].value.elemID.getFullName()\<close> raises. (In the last branch the call of
  \<open>getValuePathHints\<close> comes first, with \<open>undefined\<close> as its id; whatever it does, the
  key of the hint that follows raises.) The annotations of an inherited member are
  \<open>undefined\<close>.
\<close>

definition getFieldPathHints :: "FieldSlot Fragment list \<Rightarrow> error + PathHint list" where
  "getFieldPathHints fragments =
     (if length fragments = 0 then Inr []
      else (case fvalue (fragments ! 0) of
              InheritedMember name \<Rightarrow> Inl TypeError
            | OwnField field0 \<Rightarrow>
                if length fragments = 1
                then Inr [\<lparr>key = getFullName (field_elemID field0), value = [fpath (fragments ! 0)]\<rparr>]
                else Inr (getValuePathHints
                            (map (\<lambda>f. \<lparr>fvalue = slotAnnotations (fvalue f), fpath = fpath f\<rparr>) fragments)
                            (field_elemID field0)
                          @ [\<lparr>key = getFullName (field_elemID field0),
                               value = map fpath fragments\<rparr>])))"

definition getFieldsPathHints :: "Element Fragment list \<Rightarrow> error + PathHint list" where
  "getFieldsPathHints fragments =
     (let fragmentsWithFields = filter (\<lambda>f. \<not> (fields (fvalue f) = [])) fragments
      in if length fragmentsWithFields = 1
         then Inr [\<lparr>key = getFullName
                       (createNestedID (elemID (fvalue (fragmentsWithFields ! 0))) [''field'']),
                     value = [fpath (fragmentsWithFields ! 0)]\<rparr>]
         else (let fieldNames = uniq (concat (map (\<lambda>f. map fst (fields (fvalue f))) fragmentsWithFields))
               in flatMapE (\<lambda>fieldName. getFieldPathHints
                    (map (\<lambda>f. \<lparr>fvalue = the (lookupField (fields (fvalue f)) fieldName), fpath = fpath f\<rparr>)
                       (filter (\<lambda>f. lookupField (fields (fvalue f)) fieldName \<noteq> None) fragments)))
                    fieldNames))"

definition getElementPathHints :: "Element Fragment list \<Rightarrow> error + PathHint list" where
  "getElementPathHints elementFragments =
     (if length elementFragments = 0 then Inr []
      else if length elementFragments = 1
      then Inr [\<lparr>key = getFullName (elemID (fvalue (elementFragments ! 0))),
                  value = [fpath (elementFragments ! 0)]\<rparr>]
      else (let annoTypesHints = getAnnotationTypesPathHints elementFragments
            in case getAnnotationPathHints elementFragments of
                 Inl e \<Rightarrow> Inl e
               | Inr annotationHints \<Rightarrow>
                   (case (if list_all (\<lambda>f. isObjectType (fvalue f)) elementFragments
                          then getFieldsPathHints elementFragments else Inr []) of
                      Inl e \<Rightarrow> Inl e
                    | Inr fieldHints \<Rightarrow>
                        (let valueHints =
                               (if list_all (\<lambda>f. isInstanceElement (fvalue f)) elementFragments
                                then getValuePathHints
                                       (map (\<lambda>f. \<lparr>fvalue = PlainObject ObjectProto (instanceValue (fvalue f)),
                                                  fpath = fpath f\<rparr>) elementFragments)
                                       (elemID (fvalue (elementFragments ! 0)))
                                else [])
                         in Inr (annoTypesHints @ annotationHints @ fieldHints @ valueHints
                                 @ [\<lparr>key = getFullName (elemID (fvalue (elementFragments ! 0))),
                                      value = map fpath elementFragments\<rparr>])))))"

text \<open>
  lodash's \<open>groupBy\<close>, as the list of its entries: the keys in the order they are first
  seen, each with the elements that have it, in input order. (\<^verbatim>\<open>Object.values\<close> and
  \<^verbatim>\<open>Object.entries\<close> list keys that are canonical array indices first; a full element
  name is no such key.)
\<close>

definition groupBy :: "('a \<Rightarrow> string) \<Rightarrow> 'a list \<Rightarrow> (string \<times> 'a list) list" where
  "groupBy f xs = map (\<lambda>k. (k, filter (\<lambda>x. f x = k) xs)) (uniq (map f xs))"

definition getElementsPathHints :: "Element list \<Rightarrow> error + PathHint list" where
  "getElementsPathHints unmergedElements =
     (let elementsByID = groupBy (\<lambda>e. getFullName (elemID e)) unmergedElements
      in flatMapE (\<lambda>elementFragments. getElementPathHints
           (map (\<lambda>element. \<lparr>fvalue = element, fpath = the (path element)\<rparr>)
              (filter (\<lambda>element. path element \<noteq> None) elementFragments)))
           (map snd elementsByID))"

definition getTopLevelPathHints :: "Element list \<Rightarrow> PathHint list" where
  "getTopLevelPathHints unmergedElements =
     (let topLevelElementsWithPath = filter (\<lambda>e. path e \<noteq> None) unmergedElements;
          elementsByID = groupBy (\<lambda>e. getFullName (elemID e)) topLevelElementsWithPath
      in map (\<lambda>(k, v). \<lparr>key = k, value = map (\<lambda>e. the (path e)) v\<rparr>) elementsByID)"

section \<open>The index updater\<close>

text \<open>\<open>unmergedElementIDs\<close> is optional: \<open>None\<close> is \<open>undefined\<close>. The function returns
  the store it leaves behind.\<close>

definition updateIndex ::
  "(ElemID \<Rightarrow> ElemID) \<Rightarrow> PathIndex \<Rightarrow> Element list \<Rightarrow> string set option
     \<Rightarrow> (Element list \<Rightarrow> PathHint list) \<Rightarrow> PathIndex" where
  "updateIndex createTopLevelParentID pathIndex changedUnmergedElements unmergedElementIDs getHintsFunction =
     (let pathIndex' =
            (case unmergedElementIDs of
               None \<Rightarrow> clear pathIndex
             | Some ids \<Rightarrow>
                 (let entriesToDelete =
                        filter (\<lambda>key. getFullName (createTopLevelParentID (fromFullName key)) \<notin> ids)
                          (keys pathIndex)
                  in deleteAll pathIndex entriesToDelete));
          entriesToSet = getHintsFunction changedUnmergedElements
      in setAll pathIndex' entriesToSet)"

text \<open>
  \<open>updatePathIndex\<close> passes \<open>getElementsPathHints\<close> as the hint function, which
  \<open>updateIndex\<close> calls after it has pruned the store. Where the hint function raises,
  nothing is written and the error goes to the caller: the store is left as a run that
  writes no hint leaves it. The result is the store left behind and the error raised, if
  any.
\<close>

definition updatePathIndex ::
  "(ElemID \<Rightarrow> ElemID) \<Rightarrow> PathIndex \<Rightarrow> Element list \<Rightarrow> string set option
     \<Rightarrow> PathIndex \<times> error option" where
  "updatePathIndex createTopLevelParentID pathIndex changedUnmergedElements unmergedElementIDs =
     (case getElementsPathHints changedUnmergedElements of
        Inr hints \<Rightarrow>
          (updateIndex createTopLevelParentID pathIndex changedUnmergedElements unmergedElementIDs
             (\<lambda>unmergedElements. hints), None)
      | Inl e \<Rightarrow>
          (updateIndex createTopLevelParentID pathIndex changedUnmergedElements unmergedElementIDs
             (\<lambda>unmergedElements. []), Some e))"

definition updateTopLevelPathIndex ::
  "(ElemID \<Rightarrow> ElemID) \<Rightarrow> PathIndex \<Rightarrow> Element list \<Rightarrow> string set option \<Rightarrow> PathIndex" where
  "updateTopLevelPathIndex createTopLevelParentID pathIndex changedUnmergedElements unmergedElementIDs =
     updateIndex createTopLevelParentID pathIndex changedUnmergedElements unmergedElementIDs
       getTopLevelPathHints"

section \<open>The element splitter\<close>

text \<open>
  Modelled from the spec: \<open>filterByID\<close> (package adapter-utils) is not among the sources.
  The spec describes it as a filter by a membership predicate on ids, evaluated top-down
  over the element's structure (annotations, fields, nested values): a sub-value whose id
  satisfies the predicate is retained, with its own sub-values filtered in turn, and every
  other sub-value is dropped from the copy, with all that is below it. The ids are those
  of the hint computer: the annotation values of a type are below \<open>id.attr\<close> and those of
  an instance below \<open>id\<close>, an annotation type is at \<open>id.annotation.<name>\<close>, a field
  at its own id with its annotation values below it, the values of an instance below
  \<open>id\<close>, and an entry of a mapping at the id of the mapping extended by its key. A list or
  a scalar is retained or dropped as a whole. Filtering removes everything where the
  predicate rejects the id of the element itself: the result is \<open>undefined\<close> (\<open>None\<close>)
  then.
\<close>

fun filterValue :: "(ElemID \<Rightarrow> bool) \<Rightarrow> ElemID \<Rightarrow> Value \<Rightarrow> Value option" where
  "filterValue filterFunc elemId v =
     (if \<not> filterFunc elemId then None
      else (case v of
              PlainObject proto kvs \<Rightarrow>
                Some (PlainObject proto
                  (concat (map (\<lambda>e. case filterValue filterFunc (createNestedID elemId [fst e]) (snd e) of
                                       None \<Rightarrow> []
                                     | Some x \<Rightarrow> [(fst e, x)]) kvs)))
            | _ \<Rightarrow> Some v))"

declare filterValue.simps [simp del]

definition filterValues :: "(ElemID \<Rightarrow> bool) \<Rightarrow> ElemID \<Rightarrow> Values \<Rightarrow> Values" where
  "filterValues filterFunc elemId kvs =
     concat (map (\<lambda>e. case filterValue filterFunc (createNestedID elemId [fst e]) (snd e) of
                         None \<Rightarrow> []
                       | Some x \<Rightarrow> [(fst e, x)]) kvs)"

definition filterField :: "(ElemID \<Rightarrow> bool) \<Rightarrow> Field \<Rightarrow> Field option" where
  "filterField filterFunc fld =
     (if \<not> filterFunc (field_elemID fld) then None
      else Some (fld\<lparr>field_annotations :=
                       filterValues filterFunc (field_elemID fld) (field_annotations fld)\<rparr>))"

definition filterByID :: "ElemID \<Rightarrow> Element \<Rightarrow> (ElemID \<Rightarrow> bool) \<Rightarrow> Element option" where
  "filterByID elemId element filterFunc =
     (if \<not> filterFunc elemId then None
      else Some (element
        \<lparr>annotationRefTypes :=
           filter (\<lambda>e. filterFunc (createNestedID elemId [''annotation'', fst e]))
             (annotationRefTypes element),
         annotations :=
           filterValues filterFunc
             (if isInstanceElement element then elemId else createNestedID elemId [''attr''])
             (annotations element),
         kind :=
           (case kind element of
              ObjectType fs \<Rightarrow>
                ObjectType (concat (map (\<lambda>e. case filterField filterFunc (snd e) of
                                                None \<Rightarrow> []
                                              | Some fld \<Rightarrow> [(fst e, fld)]) fs))
            | InstanceElement v \<Rightarrow> InstanceElement (filterValues filterFunc elemId v)
            | OtherElement \<Rightarrow> OtherElement)\<rparr>))"

text \<open>
  \<open>element.clone()\<close> is the element itself, values being immutable here.
  \<^verbatim>\<open>Promise.all\<close> keeps the order of \<open>pathHints\<close>, and \<^verbatim>\<open>_.isEqual\<close> on two paths is
  their equality.
\<close>

definition splitElementByPath :: "(ElemID \<Rightarrow> ElemID) \<Rightarrow> Element \<Rightarrow> PathIndex \<Rightarrow> Element list" where
  "splitElementByPath createTopLevelParentID element index =
     (let pathHints = getFromPathIndex createTopLevelParentID (elemID element) index
      in if length pathHints \<le> 1
         then (let clonedElement = element;
                   pathToSet = (case pathHints of [] \<Rightarrow> None | p # ps \<Rightarrow> Some p)
               in [clonedElement\<lparr>path := pathToSet\<rparr>])
         else map the (filter (\<lambda>r. r \<noteq> None)
                (map (\<lambda>hint.
                   (let filterByPathHint =
                          (\<lambda>elemId. list_ex (\<lambda>idHint. idHint = hint)
                                  (getFromPathIndex createTopLevelParentID elemId index));
                        filteredElement = filterByID (elemID element) element filterByPathHint
                    in case filteredElement of
                         Some e \<Rightarrow> Some (e\<lparr>path := Some hint\<rparr>)
                       | None \<Rightarrow> None)) pathHints)))"

section \<open>Vocabulary of the properties\<close>

text \<open>
  \<open>writtenValue entries k\<close> is the value of the last entry for \<open>k\<close> among \<open>entries\<close>
  (what an upsert of the entries, in order, leaves at \<open>k\<close>), and
  \<open>topLevelParentKey\<close> is the updater's
  \<^verbatim>\<open>ElemID.fromFullName(key).createTopLevelParentID().parent.getFullName()\<close>.
\<close>

definition writtenValue :: "PathHint list \<Rightarrow> string \<Rightarrow> Path list option" where
  "writtenValue entries k =
     (case find (\<lambda>e. key e = k) (rev entries) of None \<Rightarrow> None | Some e \<Rightarrow> Some (value e))"

definition topLevelParentKey :: "(ElemID \<Rightarrow> ElemID) \<Rightarrow> string \<Rightarrow> string" where
  "topLevelParentKey createTopLevelParentID k = getFullName (createTopLevelParentID (fromFullName k))"

text \<open>The data of the examples: an object type \<open>salto.obj\<close> read from one fragment, and
  a store with entries of two other types. In the examples the top-level parent of an id
  is made of its first two segments (adapter and type name), the case of an id of a type
  or of a part of a type.\<close>

definition exampleType :: "Path \<Rightarrow> (string \<times> Field) list \<Rightarrow> Element" where
  "exampleType p fs =
     \<lparr>elemID = [''salto'', ''obj''], annotationRefTypes = [], annotations = [],
      path = Some p, kind = ObjectType fs\<rparr>"

definition exampleIndex :: PathIndex where
  "exampleIndex = [(''salto.old'', [[''g'']]), (''salto.keep.field.x'', [[''h'']])]"

text \<open>
  The vocabulary of the hint computer's description: \<open>firstSeen\<close> lists the distinct
  entries of a list in the order they are first seen; \<open>unionOfKeys\<close> is the union of the
  keys of the fragments' mappings in that order; \<open>subFragments k\<close> are the fragments that
  define \<open>k\<close> (a fragment whose mapping lacks \<open>k\<close> or holds \<open>undefined\<close> for it is
  skipped), each with its value at \<open>k\<close> and its own path.
\<close>

definition firstSeen :: "'a list \<Rightarrow> 'a list" where
  "firstSeen xs = foldl (\<lambda>seen x. if x \<in> set seen then seen else seen @ [x]) [] xs"

definition unionOfKeys :: "Value Fragment list \<Rightarrow> string list" where
  "unionOfKeys fragments =
     firstSeen (concat (map (\<lambda>f. case fvalue f of PlainObject proto kvs \<Rightarrow> map fst kvs | _ \<Rightarrow> [])
                          fragments))"

definition subFragments :: "string \<Rightarrow> Value Fragment list \<Rightarrow> Value Fragment list" where
  "subFragments k fragments =
     concat (map (\<lambda>f. case fvalue f of
                         PlainObject proto kvs \<Rightarrow>
                           (case map_of kvs k of
                              None \<Rightarrow> []
                            | Some v \<Rightarrow> if v = Undefined then [] else [\<lparr>fvalue = v, fpath = fpath f\<rparr>])
                       | _ \<Rightarrow> []) fragments)"

text \<open>
  \<open>unionOfFieldNames\<close> is the union of the field names of the fragments in first-seen
  order, and \<open>fieldFragments name\<close> are the fragments that define the field \<open>name\<close>,
  each with that field and its own path. \<open>exampleField\<close> is a field of the example type.
  An element has \<open>wellFormedFields\<close> when the id of each of its fields is the element's id
  extended by \<open>field\<close> and the field's name, as the constructor of the class Field makes it.
\<close>

definition unionOfFieldNames :: "Element Fragment list \<Rightarrow> string list" where
  "unionOfFieldNames fragments = firstSeen (concat (map (\<lambda>f. map fst (fields (fvalue f))) fragments))"

definition fieldFragments :: "string \<Rightarrow> Element Fragment list \<Rightarrow> Field Fragment list" where
  "fieldFragments name fragments =
     concat (map (\<lambda>f. case map_of (fields (fvalue f)) name of
                         None \<Rightarrow> []
                       | Some fld \<Rightarrow> [\<lparr>fvalue = fld, fpath = fpath f\<rparr>]) fragments)"

definition exampleField :: "string \<Rightarrow> Values \<Rightarrow> Field" where
  "exampleField name annos =
     \<lparr>field_elemID = [''salto'', ''obj'', ''field'', name], field_annotations = annos\<rparr>"

definition wellFormedFields :: "Element \<Rightarrow> bool" where
  "wellFormedFields e =
     list_all (\<lambda>nf. field_elemID (snd nf) = createNestedID (elemID e) [''field'', fst nf]) (fields e)"

text \<open>
  \<open>fragmentsOf k\<close> are the contributing fragments of the element named \<open>k\<close>: the input
  elements of that full name that carry a path, in input order. \<open>selectionOf fs paths\<close>:
  \<open>paths\<close> lists the paths of a non-empty selection of the fragments \<open>fs\<close>, in the order of
  \<open>fs\<close>.
\<close>

definition fragmentsOf :: "string \<Rightarrow> Element list \<Rightarrow> Element Fragment list" where
  "fragmentsOf k unmergedElements =
     map (\<lambda>e. \<lparr>fvalue = e, fpath = the (path e)\<rparr>)
       (filter (\<lambda>e. getFullName (elemID e) = k \<and> path e \<noteq> None) unmergedElements)"

definition selectionOf :: "'a Fragment list \<Rightarrow> Path list \<Rightarrow> bool" where
  "selectionOf fs paths = (\<exists>sel. sel \<noteq> [] \<and> subseq sel fs \<and> paths = map fpath sel)"

definition exampleElements :: "Element list" where
  "exampleElements =
     [exampleType [''f1''] [(''a'', exampleField ''a'' [])],
      (exampleType [''f3''] [])\<lparr>path := None\<rparr>,
      exampleType [''f2''] [(''b'', exampleField ''b'' [])]]"

text \<open>
  \<open>keyNestedIn k parent\<close>: the key is the full name of \<open>parent\<close> extended by name parts
  (\<open>createNestedID\<close>). \<open>hintNameParts e\<close> are the name parts by which the hint computer
  extends the id of an element: none, parts that begin with \<open>annotation\<close>, \<open>attr\<close> or
  \<open>field\<close>, and for an instance any parts (its values are nested below its own id).
  \<open>exampleTopLevelParent\<close> is the top-level parent of the examples that have an instance:
  the first four segments of an id \<open>adapter.type.instance.name...\<close>, and the first two of
  any other id. \<open>exampleInstance\<close> is an instance of the example type.
\<close>

definition keyNestedIn :: "string \<Rightarrow> ElemID \<Rightarrow> bool" where
  "keyNestedIn k parent = (\<exists>nameParts. k = getFullName (createNestedID parent nameParts))"

definition hintNameParts :: "Element \<Rightarrow> string list \<Rightarrow> bool" where
  "hintNameParts e nameParts =
     (nameParts = [] \<or> isInstanceElement e
      \<or> hd nameParts \<in> {''annotation'', ''attr'', ''field''})"

definition exampleTopLevelParent :: "ElemID \<Rightarrow> ElemID" where
  "exampleTopLevelParent elemId =
     (if 4 \<le> length elemId \<and> elemId ! 2 = ''instance'' then take 4 elemId else take 2 elemId)"

definition exampleInstance :: "Path \<Rightarrow> Values \<Rightarrow> Element" where
  "exampleInstance p v =
     \<lparr>elemID = [''salto'', ''obj'', ''instance'', ''i''], annotationRefTypes = [], annotations = [],
      path = Some p, kind = InstanceElement v\<rparr>"

text \<open>
  \<open>subValueIds e\<close> are the ids of the element \<open>e\<close> and of its sub-values, the ids at which
  \<open>filterByID\<close> evaluates its predicate.
\<close>

fun valueIds :: "ElemID \<Rightarrow> Value \<Rightarrow> ElemID list" where
  "valueIds elemId v =
     elemId # (case v of
                 PlainObject proto kvs \<Rightarrow>
                   concat (map (\<lambda>e. valueIds (createNestedID elemId [fst e]) (snd e)) kvs)
               | _ \<Rightarrow> [])"

declare valueIds.simps [simp del]

definition valuesIds :: "ElemID \<Rightarrow> Values \<Rightarrow> ElemID list" where
  "valuesIds elemId kvs = concat (map (\<lambda>e. valueIds (createNestedID elemId [fst e]) (snd e)) kvs)"

definition subValueIds :: "Element \<Rightarrow> ElemID list" where
  "subValueIds e =
     elemID e
     # map (\<lambda>a. createNestedID (elemID e) [''annotation'', fst a]) (annotationRefTypes e)
     @ valuesIds (if isInstanceElement e then elemID e else createNestedID (elemID e) [''attr''])
         (annotations e)
     @ (case kind e of
          ObjectType fs \<Rightarrow>
            concat (map (\<lambda>nf. field_elemID (snd nf)
                               # valuesIds (field_elemID (snd nf)) (field_annotations (snd nf))) fs)
        | InstanceElement v \<Rightarrow> valuesIds (elemID e) v
        | OtherElement \<Rightarrow> [])"

section \<open>Properties of the lookup\<close>

lemma truncations_Nil: "truncations [] = []"
  by (simp add: truncations_def)

lemma truncations_nonempty:
  assumes "parts \<noteq> []"
  shows "truncations parts = parts # truncations (butlast parts)"
proof -
  obtain n where n: "length parts = Suc n"
    using assms by (cases parts) auto
  have "take m (butlast parts) = take m parts" if "m \<le> n" for m
    using that n by (simp add: butlast_conv_take min_def)
  then have "map (\<lambda>m. take m parts) (rev [1..<Suc n]) = map (\<lambda>m. take m (butlast parts)) (rev [1..<Suc n])"
    by (intro map_cong) auto
  then show ?thesis
    using n by (simp add: truncations_def)
qed

lemma examinedKeys_Nil: "examinedKeys t [] = []"
  by (simp add: examinedKeys_def truncations_Nil)

lemma examinedKeys_nonempty:
  "q \<noteq> [] \<Longrightarrow> examinedKeys t q =
     join ''.'' q # (if join ''.'' q = t then [] else examinedKeys t (butlast q))"
  by (simp add: examinedKeys_def truncations_nonempty Let_def)

lemma found_iff: "found index k \<longleftrightarrow> get index k \<noteq> None \<and> length (the (get index k)) > 0"
  by (simp add: found_def split: option.splits)

lemma loop_step:
  "getFromPathIndex_loop index t q ex =
     (if found index (join ''.'' q)
      then (if ex then the (get index (join ''.'' q)) else [hd (the (get index (join ''.'' q)))])
      else if butlast q \<noteq> [] \<and> join ''.'' q \<noteq> t
           then getFromPathIndex_loop index t (butlast q) False else [])"
  by (subst getFromPathIndex_loop.simps) (simp add: Let_def found_iff)

lemma loop_ancestors:
  "q \<noteq> [] \<Longrightarrow> getFromPathIndex_loop index t q False =
     (case find (found index) (examinedKeys t q) of
        None \<Rightarrow> [] | Some k \<Rightarrow> [hd (the (get index k))])"
proof (induction q rule: rev_induct)
  case Nil
  then show ?case by simp
next
  case (snoc x xs)
  show ?case
  proof (cases xs)
    case Nil
    then show ?thesis
      by (subst loop_step) (simp add: examinedKeys_nonempty examinedKeys_Nil)
  next
    case (Cons y ys)
    then have "xs \<noteq> []" by simp
    with snoc.IH show ?thesis
      by (subst loop_step) (simp add: examinedKeys_nonempty)
  qed
qed

lemma loop_cong:
  assumes "\<And>k. found index k = found index' k"
    and "\<And>k. found index k \<Longrightarrow> get index k = get index' k"
  shows "getFromPathIndex_loop index t q ex = getFromPathIndex_loop index' t q ex"
proof (induction q arbitrary: ex rule: rev_induct)
  case Nil
  show ?case
    by (subst (1 2) loop_step) (simp add: assms)
next
  case (snoc x xs)
  show ?case
    by (subst (1 2) loop_step) (simp add: assms snoc.IH)
qed

lemma get_deleteAll: "get (deleteAll index ks) k = (if k \<in> set ks then None else get index k)"
  by (induction index) (auto simp: get_def deleteAll_def)

text \<open>
  Claim C1, as amended. For every store and every id, \<open>getFromPathIndex\<close> first looks up
  the full id: if the store holds a non-empty list for the exact key, it returns that list
  unmodified. Otherwise it truncates one trailing segment at a time, and at the first
  ancestor key for which the store holds a non-empty list (down to and including the
  top-level-parent key) it returns the list made of that entry's first path alone; if no
  such key is met, it returns the empty list. A key that the store maps to the empty list
  counts as absent.
\<close>

theorem getFromPathIndex_resolves:
  "getFromPathIndex createTopLevelParentID elemId index =
     (if found index (getFullName elemId) then the (get index (getFullName elemId))
      else (case find (found index)
                  (ancestorKeys (getFullName (createTopLevelParentID elemId)) (getFullNameParts elemId)) of
              None \<Rightarrow> []
            | Some k \<Rightarrow> [hd (the (get index k))]))"
  unfolding getFromPathIndex_def getFullName_def
  by (subst loop_step) (simp add: ancestorKeys_def loop_ancestors examinedKeys_Nil)

theorem getFromPathIndex_resolves_witness:
  "getFromPathIndex (take 2) [''salto'', ''obj'', ''field'', ''f'']
       [(''salto.obj.field.f'', []), (''salto.obj'', [[''f1''], [''f2'']])] = [[''f1'']]
   \<and> getFromPathIndex (take 2) [''salto'', ''obj'', ''field'', ''f'']
       [(''salto.obj.field.f'', [[''f1''], [''f2'']])] = [[''f1''], [''f2'']]
   \<and> getFromPathIndex (take 2) [''salto'', ''obj'', ''field'', ''f'']
       [(''salto'', [[''f1''], [''f2'']])] = []"
proof -
  have a: "ancestorKeys ''salto.obj'' [''salto'', ''obj'', ''field'', ''f'']
          = [''salto.obj.field'', ''salto.obj'']"
    by code_simp
  show ?thesis
    by (simp add: getFromPathIndex_resolves a found_def get_def getFullName_def getFullNameParts_def)
qed

text \<open>
  The claim as first stated ("if the exact key is present it returns the complete recorded
  path list unmodified") fails where the exact key is recorded with the empty list and an
  ancestor key has paths: the guard \<^verbatim>\<open>pathHints.length > 0\<close> sends the lookup on to the
  ancestor.
\<close>

theorem getFromPathIndex_exact_key_counterexample:
  "get [(''salto.obj.field.f'', []), (''salto.obj'', [[''f1''], [''f2'']])]
       (getFullName [''salto'', ''obj'', ''field'', ''f'']) = Some []
   \<and> getFromPathIndex (take 2) [''salto'', ''obj'', ''field'', ''f'']
       [(''salto.obj.field.f'', []), (''salto.obj'', [[''f1''], [''f2'']])] = [[''f1'']]"
  by (simp add: getFromPathIndex_def getFullName_def getFullNameParts_def get_def
      getFromPathIndex_loop.simps)

text \<open>
  Claim C10. In a store in which a key is mapped to the empty path list,
  \<open>getFromPathIndex\<close> treats that key exactly as if it were absent: the key is not
  found, and every lookup returns what it returns on the store with that key deleted. In
  particular a lookup of the id whose full name is that key does not return the empty
  list at the exact match: it goes on truncating, and returns the first path of the first
  ancestor key (down to and including the top-level-parent key) for which the store holds
  a non-empty list, or the empty list if there is no such ancestor key.
\<close>

theorem empty_entry_as_absent:
  assumes "get index k = Some []"
  shows "\<not> found index k
     \<and> getFromPathIndex createTopLevelParentID elemId index
         = getFromPathIndex createTopLevelParentID elemId (deleteAll index [k])
     \<and> (getFullName elemId = k \<longrightarrow>
          getFromPathIndex createTopLevelParentID elemId index
            = (case find (found index)
                      (ancestorKeys (getFullName (createTopLevelParentID elemId))
                         (getFullNameParts elemId)) of
                 None \<Rightarrow> []
               | Some a \<Rightarrow> [hd (the (get index a))]))"
proof (intro conjI impI)
  show nf: "\<not> found index k"
    using assms by (simp add: found_def)
  show "getFromPathIndex createTopLevelParentID elemId index
         = getFromPathIndex createTopLevelParentID elemId (deleteAll index [k])"
    unfolding getFromPathIndex_def
    by (rule loop_cong) (use assms in \<open>auto simp: found_def get_deleteAll\<close>)
  assume "getFullName elemId = k"
  with nf have "\<not> found index (join ''.'' elemId)"
    by (simp add: getFullName_def getFullNameParts_def)
  then show "getFromPathIndex createTopLevelParentID elemId index
            = (case find (found index)
                      (ancestorKeys (getFullName (createTopLevelParentID elemId))
                         (getFullNameParts elemId)) of
                 None \<Rightarrow> []
               | Some a \<Rightarrow> [hd (the (get index a))])"
    unfolding getFromPathIndex_def getFullName_def getFullNameParts_def
    by (subst loop_step) (simp add: ancestorKeys_def loop_ancestors examinedKeys_Nil)
qed

theorem empty_entry_as_absent_witness:
  "get [(''salto.obj.field.f'', []), (''salto.obj'', [[''f1''], [''f2'']])] ''salto.obj.field.f'' = Some []
   \<and> \<not> found [(''salto.obj.field.f'', []), (''salto.obj'', [[''f1''], [''f2'']])] ''salto.obj.field.f''
   \<and> getFromPathIndex (take 2) [''salto'', ''obj'', ''field'', ''f'']
        [(''salto.obj.field.f'', []), (''salto.obj'', [[''f1''], [''f2'']])]
      = getFromPathIndex (take 2) [''salto'', ''obj'', ''field'', ''f'']
        (deleteAll [(''salto.obj.field.f'', []), (''salto.obj'', [[''f1''], [''f2'']])] [''salto.obj.field.f''])
   \<and> getFromPathIndex (take 2) [''salto'', ''obj'', ''field'', ''f'']
        [(''salto.obj.field.f'', []), (''salto.obj'', [[''f1''], [''f2'']])]
      = [[''f1'']]
   \<and> get [(''salto.obj.field.f'', []), (''salto.other'', [[''f1'']])] ''salto.obj.field.f'' = Some []
   \<and> getFromPathIndex (take 2) [''salto'', ''obj'', ''field'', ''f'']
        [(''salto.obj.field.f'', []), (''salto.other'', [[''f1'']])]
      = []"
proof -
  have h: "get [(''salto.obj.field.f'', []), (''salto.obj'', [[''f1''], [''f2'']])] ''salto.obj.field.f'' = Some []"
    by (simp add: get_def)
  have h': "get [(''salto.obj.field.f'', []), (''salto.other'', [[''f1'']])] ''salto.obj.field.f'' = Some []"
    by (simp add: get_def)
  have n: "getFullName [''salto'', ''obj'', ''field'', ''f''] = ''salto.obj.field.f''"
    by (simp add: getFullName_def getFullNameParts_def)
  have a: "ancestorKeys (getFullName (take 2 [''salto'', ''obj'', ''field'', ''f'']))
             (getFullNameParts [''salto'', ''obj'', ''field'', ''f''])
          = [''salto.obj.field'', ''salto.obj'']"
    by code_simp
  show ?thesis
    using h h' empty_entry_as_absent [OF h, where elemId = "[''salto'', ''obj'', ''field'', ''f'']"
        and createTopLevelParentID = "take 2"]
      empty_entry_as_absent [OF h', where elemId = "[''salto'', ''obj'', ''field'', ''f'']"
        and createTopLevelParentID = "take 2"]
    unfolding n a
    by (auto simp add: found_def get_def)
qed

section \<open>Properties of the index updater\<close>

lemma get_clear: "get (clear index) k = None"
  by (simp add: get_def clear_def)

lemma get_update: "get (AList.update k v index) k' = (if k' = k then Some v else get index k')"
  by (simp add: get_def update_conv')

lemma get_setAll:
  "get (setAll index entries) k =
     (case writtenValue entries k of None \<Rightarrow> get index k | Some v \<Rightarrow> Some v)"
proof (induction entries arbitrary: index rule: rev_induct)
  case Nil
  show ?case by (simp add: setAll_def writtenValue_def)
next
  case (snoc e es)
  have "setAll index (es @ [e]) = AList.update (key e) (value e) (setAll index es)"
    by (simp add: setAll_def)
  then show ?case
    using snoc.IH [of index] by (simp add: get_update writtenValue_def)
qed

lemma keys_update: "set (keys (AList.update k v index)) = insert k (set (keys index))"
  using dom_update [of k v index] by (simp add: keys_def)

lemma keys_setAll: "set (keys (setAll index entries)) = set (keys index) \<union> key ` set entries"
proof (induction entries rule: rev_induct)
  case Nil
  show ?case by (simp add: setAll_def)
next
  case (snoc e es)
  have "setAll index (es @ [e]) = AList.update (key e) (value e) (setAll index es)"
    by (simp add: setAll_def)
  then show ?case
    using snoc.IH by (simp add: keys_update)
qed

lemma keys_deleteAll: "set (keys (deleteAll index ks)) = set (keys index) - set ks"
  by (auto simp: keys_def deleteAll_def)

lemma get_None_iff: "get index k = None \<longleftrightarrow> k \<notin> set (keys index)"
  by (simp add: get_def keys_def map_of_eq_None_iff)

lemma get_pruned:
  "get (deleteAll index (filter (\<lambda>key. topLevelParentKey tlp key \<notin> ids) (keys index))) k
     = (if topLevelParentKey tlp k \<in> ids then get index k else None)"
  using get_None_iff [of index k] by (auto simp: get_deleteAll)

text \<open>
  Claim C5. With \<open>unmergedElementIDs\<close> absent, \<open>updateIndex\<close> clears the store and then
  writes every hint the hint function produces on the changed elements. With it present,
  it deletes exactly the existing keys whose top-level parent id is not a member, then
  upserts the hints (new keys added, existing keys overwritten by the last hint for the
  key) and leaves every other existing key untouched. Stated for the store's contents at
  an arbitrary key.
\<close>

theorem updateIndex_contents:
  "get (updateIndex createTopLevelParentID pathIndex changedUnmergedElements unmergedElementIDs
          getHintsFunction) k =
     (case writtenValue (getHintsFunction changedUnmergedElements) k of
        Some v \<Rightarrow> Some v
      | None \<Rightarrow>
          (case unmergedElementIDs of
             None \<Rightarrow> None
           | Some ids \<Rightarrow>
               if topLevelParentKey createTopLevelParentID k \<in> ids then get pathIndex k else None))"
  using get_pruned [of pathIndex createTopLevelParentID _ k]
  by (simp add: updateIndex_def get_setAll get_clear Let_def topLevelParentKey_def
      split: option.splits)

theorem updateIndex_contents_witness:
  "get (updateIndex (take 2) exampleIndex [exampleType [''f1''] []] (Some {''salto.obj'', ''salto.keep''})
          getTopLevelPathHints) ''salto.obj'' = Some [[''f1'']]
   \<and> get (updateIndex (take 2) exampleIndex [exampleType [''f1''] []] (Some {''salto.obj'', ''salto.keep''})
          getTopLevelPathHints) ''salto.old'' = None
   \<and> get (updateIndex (take 2) exampleIndex [exampleType [''f1''] []] (Some {''salto.obj'', ''salto.keep''})
          getTopLevelPathHints) ''salto.keep.field.x'' = Some [[''h'']]
   \<and> get (updateIndex (take 2) exampleIndex [exampleType [''f1''] []] None
          getTopLevelPathHints) ''salto.keep.field.x'' = None"
proof -
  have h: "getTopLevelPathHints [exampleType [''f1''] []] = [\<lparr>key = ''salto.obj'', value = [[''f1'']]\<rparr>]"
    by code_simp
  have t: "topLevelParentKey (take 2) ''salto.old'' = ''salto.old''"
     "topLevelParentKey (take 2) ''salto.keep.field.x'' = ''salto.keep''"
    by code_simp+
  show ?thesis
    unfolding updateIndex_contents h
    by (simp add: t writtenValue_def exampleIndex_def get_def)
qed

text \<open>
  Claim C6. \<open>updateIndex\<close> is idempotent: for every store, every list of changed elements
  (the empty one included) and every optional set of known ids, running it twice with the
  same arguments leaves the same store contents as running it once.
\<close>

theorem updateIndex_idempotent:
  "get (updateIndex createTopLevelParentID
          (updateIndex createTopLevelParentID pathIndex changedUnmergedElements unmergedElementIDs
             getHintsFunction)
          changedUnmergedElements unmergedElementIDs getHintsFunction)
   = get (updateIndex createTopLevelParentID pathIndex changedUnmergedElements unmergedElementIDs
            getHintsFunction)"
proof
  fix k
  show "get (updateIndex createTopLevelParentID
          (updateIndex createTopLevelParentID pathIndex changedUnmergedElements unmergedElementIDs
             getHintsFunction)
          changedUnmergedElements unmergedElementIDs getHintsFunction) k
   = get (updateIndex createTopLevelParentID pathIndex changedUnmergedElements unmergedElementIDs
            getHintsFunction) k"
    using get_pruned [of _ createTopLevelParentID _ k]
    by (simp add: updateIndex_def get_setAll get_clear Let_def topLevelParentKey_def
        split: option.splits)
qed

theorem updateIndex_idempotent_witness:
  "get (updateIndex (take 2)
          (updateIndex (take 2) exampleIndex [exampleType [''f1''] []] (Some {''salto.obj'', ''salto.keep''})
             getTopLevelPathHints)
          [exampleType [''f1''] []] (Some {''salto.obj'', ''salto.keep''}) getTopLevelPathHints)
   = get (updateIndex (take 2) exampleIndex [exampleType [''f1''] []] (Some {''salto.obj'', ''salto.keep''})
            getTopLevelPathHints)
   \<and> updateIndex (take 2) exampleIndex [exampleType [''f1''] []] (Some {''salto.obj'', ''salto.keep''})
            getTopLevelPathHints
       = [(''salto.keep.field.x'', [[''h'']]), (''salto.obj'', [[''f1'']])]"
proof -
  have "updateIndex (take 2) exampleIndex [exampleType [''f1''] []] (Some {''salto.obj'', ''salto.keep''})
            getTopLevelPathHints
       = [(''salto.keep.field.x'', [[''h'']]), (''salto.obj'', [[''f1'']])]"
    by code_simp
  then show ?thesis
    using updateIndex_idempotent [of "take 2" exampleIndex "[exampleType [''f1''] []]"
        "Some {''salto.obj'', ''salto.keep''}" getTopLevelPathHints]
    by simp
qed

section \<open>Properties of the path-hint computer\<close>

lemma foldl_firstSeen:
  "foldl (\<lambda>seen x. if x \<in> set seen then seen else seen @ [x]) acc xs
     = acc @ uniq (filter (\<lambda>x. x \<notin> set acc) xs)"
proof (induction xs arbitrary: acc)
  case Nil
  show ?case by simp
next
  case (Cons x xs)
  have "filter (\<lambda>y. y \<notin> set (acc @ [x])) xs = filter (\<lambda>y. y \<noteq> x) (filter (\<lambda>y. y \<notin> set acc) xs)"
    by (induction xs) auto
  then show ?case
    using Cons.IH [of acc] Cons.IH [of "acc @ [x]"] by (simp del: set_append)
qed

lemma uniq_firstSeen: "uniq xs = firstSeen xs"
  by (simp add: firstSeen_def foldl_firstSeen)

lemma set_uniq: "set (uniq xs) = set xs"
  by (induction xs rule: uniq.induct) auto

lemma in_map_uniq: "h \<in> set (map F (uniq xs)) \<Longrightarrow> \<exists>k \<in> set xs. h = F k"
  by (auto simp: set_uniq)

lemma find_Some_set: "find P xs = Some x \<Longrightarrow> x \<in> set xs \<and> P x"
  by (induction xs) (auto split: if_splits)

lemma writtenValue_in_set:
  "writtenValue entries k = Some v \<Longrightarrow> \<exists>h \<in> set entries. key h = k \<and> value h = v"
  by (auto simp: writtenValue_def split: option.splits dest!: find_Some_set)

lemma flatMapE_Inr:
  "flatMapE f xs = Inr ys \<Longrightarrow> y \<in> set ys \<Longrightarrow> \<exists>x \<in> set xs. \<exists>zs. f x = Inr zs \<and> y \<in> set zs"
proof (induction xs arbitrary: ys)
  case Nil
  then show ?case by simp
next
  case (Cons x xs)
  then show ?case
    by (auto split: sum.splits)
qed

lemma flatMapE_all_Inr:
  "(\<And>x. x \<in> set xs \<Longrightarrow> f x = Inr (g x)) \<Longrightarrow> flatMapE f xs = Inr (concat (map g xs))"
  by (induction xs) auto

lemmas hint_eval =
  exampleType_def exampleField_def getElementPathHints_def
  getAnnotationTypesPathHints_def getAnnotationPathHints_def getFieldsPathHints_def
  getFieldPathHints_def getValuePathHints.simps isObjectType_def isInstanceElement_def
  fields_def instanceValue_def isPlainObject_def Object_keys_def getFullName_def
  getFullNameParts_def createNestedID_def lookupField_def slotAnnotations_def property_def
  isDefined_def objectPrototypeMembers_def objectPrototypeFunctions_def

text \<open>
  Claim C3 fails on the code where a key of one fragment names a member of
  \<^verbatim>\<open>Object.prototype\<close>. The claim has \<open>getValuePathHints\<close> return, when every fragment's
  value is a plain mapping, the concatenation over the union of keys of its results on the
  sub-fragments that define each key, a fragment that lacks the key being skipped. For the
  fragments \<^verbatim>\<open>{toString: 1}\<close> of path \<open>f1\<close> and \<^verbatim>\<open>{b: 2}\<close> of path \<open>f2\<close> at the id \<open>X\<close>
  that is one hint from \<open>X.toString\<close> to \<open>f1\<close> and one from \<open>X.b\<close> to \<open>f2\<close>. The code
  reads \<^verbatim>\<open>f.value[key]\<close>, which for the second fragment and the key \<open>toString\<close> is the
  function inherited from \<^verbatim>\<open>Object.prototype\<close>: the fragment is not skipped, the two
  values differ in shape, and no hint is made for \<open>X.toString\<close>.
\<close>

theorem getValuePathHints_inherited_key:
  "getValuePathHints
     [\<lparr>fvalue = PlainObject ObjectProto [(''toString'', Primitive ''1'')], fpath = [''f1'']\<rparr>,
      \<lparr>fvalue = PlainObject ObjectProto [(''b'', Primitive ''2'')], fpath = [''f2'']\<rparr>] [''X'']
     = [\<lparr>key = ''X.b'', value = [[''f2'']]\<rparr>]
   \<and> concat (map (\<lambda>k. getValuePathHints
         (subFragments k
            [\<lparr>fvalue = PlainObject ObjectProto [(''toString'', Primitive ''1'')], fpath = [''f1'']\<rparr>,
             \<lparr>fvalue = PlainObject ObjectProto [(''b'', Primitive ''2'')], fpath = [''f2'']\<rparr>])
         (createNestedID [''X''] [k]))
       (unionOfKeys
          [\<lparr>fvalue = PlainObject ObjectProto [(''toString'', Primitive ''1'')], fpath = [''f1'']\<rparr>,
           \<lparr>fvalue = PlainObject ObjectProto [(''b'', Primitive ''2'')], fpath = [''f2'']\<rparr>]))
     = [\<lparr>key = ''X.toString'', value = [[''f1'']]\<rparr>, \<lparr>key = ''X.b'', value = [[''f2'']]\<rparr>]
   \<and> property (PlainObject ObjectProto [(''b'', Primitive ''2'')]) ''toString''
     = FunctionValue ''toString''"
proof -
  have u: "unionOfKeys
          [\<lparr>fvalue = PlainObject ObjectProto [(''toString'', Primitive ''1'')], fpath = [''f1'']\<rparr>,
           \<lparr>fvalue = PlainObject ObjectProto [(''b'', Primitive ''2'')], fpath = [''f2'']\<rparr>]
        = [''toString'', ''b'']"
    by code_simp
  show ?thesis
    unfolding u by (simp add: hint_eval subFragments_def)
qed

lemma concat_map_filter_nonempty:
  "concat (map g (filter (\<lambda>x. \<not> (g x = [])) xs)) = concat (map g xs)"
  by (induction xs) auto

lemma fieldNames_unionOfFieldNames:
  "uniq (concat (map (\<lambda>f. map fst (fields (fvalue f)))
           (filter (\<lambda>f. \<not> (fields (fvalue f) = [])) fragments)))
     = unionOfFieldNames fragments"
  using concat_map_filter_nonempty [of "\<lambda>f. map fst (fields (fvalue f))" fragments]
  by (simp add: unionOfFieldNames_def uniq_firstSeen)

lemma lookupField_own:
  "name \<notin> set objectPrototypeMembers \<Longrightarrow> lookupField fs name = map_option OwnField (map_of fs name)"
  by (simp add: lookupField_def split: option.splits)

lemma defined_fieldFragments:
  assumes "name \<notin> set objectPrototypeMembers"
  shows "map (\<lambda>f. \<lparr>fvalue = the (lookupField (fields (fvalue f)) name), fpath = fpath f\<rparr>)
     (filter (\<lambda>f. lookupField (fields (fvalue f)) name \<noteq> None) fragments)
   = map (\<lambda>ff. \<lparr>fvalue = OwnField (fvalue ff), fpath = fpath ff\<rparr>) (fieldFragments name fragments)"
  by (induction fragments) (auto simp: fieldFragments_def lookupField_own [OF assms])

lemma getFieldPathHints_own:
  "getFieldPathHints (map (\<lambda>ff. \<lparr>fvalue = OwnField (fvalue ff), fpath = fpath ff\<rparr>) ffs) =
     Inr (case ffs of
        [] \<Rightarrow> []
      | [ff] \<Rightarrow> [\<lparr>key = getFullName (field_elemID (fvalue ff)), value = [fpath ff]\<rparr>]
      | ff # rest \<Rightarrow>
          getValuePathHints
            (map (\<lambda>g. \<lparr>fvalue = PlainObject ObjectProto (field_annotations (fvalue g)), fpath = fpath g\<rparr>)
               (ff # rest))
            (field_elemID (fvalue ff))
          @ [\<lparr>key = getFullName (field_elemID (fvalue ff)), value = map fpath (ff # rest)\<rparr>])"
  by (simp add: getFieldPathHints_def slotAnnotations_def comp_def split: list.splits)

lemma fieldFragments_elemID:
  assumes "ff \<in> set (fieldFragments name fragments)"
    and "list_all (\<lambda>f. elemID (fvalue f) = elemId \<and> wellFormedFields (fvalue f)) fragments"
  shows "field_elemID (fvalue ff) = createNestedID elemId [''field'', name]"
proof -
  from assms(1) obtain f fld where f: "f \<in> set fragments"
    and m: "map_of (fields (fvalue f)) name = Some fld" and ff: "fvalue ff = fld"
    by (fastforce simp: fieldFragments_def split: option.splits)
  from m have "(name, fld) \<in> set (fields (fvalue f))"
    by (rule map_of_SomeD)
  moreover from f assms(2) have "elemID (fvalue f) = elemId" "wellFormedFields (fvalue f)"
    by (auto simp: list_all_iff)
  ultimately show ?thesis
    using ff by (auto simp: wellFormedFields_def list_all_iff)
qed

text \<open>
  Claim C4, as amended. For every list of two or more ObjectType fragments of one id,
  whose fields have their ids at \<open>id.field.<name>\<close>: when exactly one fragment has
  fields, the field hints are the single hint keyed at \<open>id.field\<close> that lists that
  fragment's path. Otherwise, where no field is named like a member of
  \<^verbatim>\<open>Object.prototype\<close>, they are computed over the union of field names across the
  fragments, in first-seen order: a field defined in exactly one fragment yields exactly
  one hint, keyed at that field's full id \<open>id.field.<name>\<close> and listing that fragment's
  path, and a field defined in several fragments yields that field's annotation-value
  hints followed by a catch-all hint at the field's id that lists the paths of all the
  fragments that define it.
\<close>

theorem getFieldsPathHints_cases:
  assumes "2 \<le> length fragments"
    and "list_all (\<lambda>f. isObjectType (fvalue f)) fragments"
    and "list_all (\<lambda>f. elemID (fvalue f) = elemId \<and> wellFormedFields (fvalue f)) fragments"
    and "length (filter (\<lambda>f. fields (fvalue f) \<noteq> []) fragments) = 1
         \<or> list_all (\<lambda>name. name \<notin> set objectPrototypeMembers) (unionOfFieldNames fragments)"
  shows "getFieldsPathHints fragments =
     (case filter (\<lambda>f. fields (fvalue f) \<noteq> []) fragments of
        [f] \<Rightarrow> Inr [\<lparr>key = getFullName (createNestedID elemId [''field'']), value = [fpath f]\<rparr>]
      | _ \<Rightarrow>
          Inr (concat (map (\<lambda>name.
              case fieldFragments name fragments of
                [] \<Rightarrow> []
              | [ff] \<Rightarrow> [\<lparr>key = getFullName (createNestedID elemId [''field'', name]),
                           value = [fpath ff]\<rparr>]
              | ff # ffs \<Rightarrow>
                  getValuePathHints
                    (map (\<lambda>g. \<lparr>fvalue = PlainObject ObjectProto (field_annotations (fvalue g)),
                               fpath = fpath g\<rparr>)
                       (ff # ffs))
                    (createNestedID elemId [''field'', name])
                  @ [\<lparr>key = getFullName (createNestedID elemId [''field'', name]),
                       value = map fpath (ff # ffs)\<rparr>])
            (unionOfFieldNames fragments))))"
proof -
  define withFields where "withFields = filter (\<lambda>f. \<not> (fields (fvalue f) = [])) fragments"
  consider (one) f where "withFields = [f]" | (other) "length withFields \<noteq> 1"
    by (cases withFields rule: list.exhaust; cases "tl withFields" rule: list.exhaust; auto)
  then show ?thesis
  proof cases
    case one
    then have "f \<in> set withFields"
      by simp
    then have "f \<in> set fragments"
      by (simp add: withFields_def)
    with assms(3) have "elemID (fvalue f) = elemId"
      by (auto simp: list_all_iff)
    with one show ?thesis
      by (simp add: getFieldsPathHints_def withFields_def [symmetric])
  next
    case other
    with assms(4) have names: "\<And>name. name \<in> set (unionOfFieldNames fragments)
        \<Longrightarrow> name \<notin> set objectPrototypeMembers"
      by (auto simp: withFields_def list_all_iff)
    define hintsOf where "hintsOf = (\<lambda>name.
              case fieldFragments name fragments of
                [] \<Rightarrow> []
              | [ff] \<Rightarrow> [\<lparr>key = getFullName (createNestedID elemId [''field'', name]),
                           value = [fpath ff]\<rparr>]
              | ff # ffs \<Rightarrow>
                  getValuePathHints
                    (map (\<lambda>g. \<lparr>fvalue = PlainObject ObjectProto (field_annotations (fvalue g)),
                               fpath = fpath g\<rparr>)
                       (ff # ffs))
                    (createNestedID elemId [''field'', name])
                  @ [\<lparr>key = getFullName (createNestedID elemId [''field'', name]),
                       value = map fpath (ff # ffs)\<rparr>])"
    have each: "getFieldPathHints
            (map (\<lambda>f. \<lparr>fvalue = the (lookupField (fields (fvalue f)) name), fpath = fpath f\<rparr>)
               (filter (\<lambda>f. lookupField (fields (fvalue f)) name \<noteq> None) fragments))
          = Inr (hintsOf name)"
      if "name \<in> set (unionOfFieldNames fragments)" for name
    proof -
      have id: "field_elemID (fvalue ff) = createNestedID elemId [''field'', name]"
        if "ff \<in> set (fieldFragments name fragments)" for ff
        using that assms(3) by (rule fieldFragments_elemID)
      show ?thesis
        unfolding defined_fieldFragments [OF names [OF that]] getFieldPathHints_own hintsOf_def
        using id by (auto split: list.splits)
    qed
    have "getFieldsPathHints fragments =
        flatMapE (\<lambda>fieldName. getFieldPathHints
            (map (\<lambda>f. \<lparr>fvalue = the (lookupField (fields (fvalue f)) fieldName), fpath = fpath f\<rparr>)
               (filter (\<lambda>f. lookupField (fields (fvalue f)) fieldName \<noteq> None) fragments)))
          (unionOfFieldNames fragments)"
      unfolding getFieldsPathHints_def Let_def fieldNames_unionOfFieldNames
      using other by (simp add: withFields_def)
    also have "\<dots> = Inr (concat (map hintsOf (unionOfFieldNames fragments)))"
      using each by (rule flatMapE_all_Inr)
    finally show ?thesis
      using other unfolding hintsOf_def withFields_def [symmetric]
      by (auto split: list.splits)
  qed
qed

theorem getFieldsPathHints_cases_witness:
  "getFieldsPathHints
     [\<lparr>fvalue = exampleType [''f1'']
         [(''a'', exampleField ''a'' []), (''b'', exampleField ''b'' [(''label'', Primitive ''x'')])],
       fpath = [''f1'']\<rparr>,
      \<lparr>fvalue = exampleType [''f2''] [(''b'', exampleField ''b'' [(''required'', Primitive ''true'')])],
       fpath = [''f2'']\<rparr>]
   = Inr [\<lparr>key = ''salto.obj.field.a'', value = [[''f1'']]\<rparr>,
          \<lparr>key = ''salto.obj.field.b.label'', value = [[''f1'']]\<rparr>,
          \<lparr>key = ''salto.obj.field.b.required'', value = [[''f2'']]\<rparr>,
          \<lparr>key = ''salto.obj.field.b'', value = [[''f1''], [''f2'']]\<rparr>]
   \<and> getFieldsPathHints
     [\<lparr>fvalue = exampleType [''f1''] [(''constructor'', exampleField ''constructor'' [])],
       fpath = [''f1'']\<rparr>,
      \<lparr>fvalue = exampleType [''f2''] [], fpath = [''f2'']\<rparr>]
   = Inr [\<lparr>key = ''salto.obj.field'', value = [[''f1'']]\<rparr>]"
proof -
  let ?fragments = "[\<lparr>fvalue = exampleType [''f1'']
         [(''a'', exampleField ''a'' []), (''b'', exampleField ''b'' [(''label'', Primitive ''x'')])],
       fpath = [''f1'']\<rparr>,
      \<lparr>fvalue = exampleType [''f2''] [(''b'', exampleField ''b'' [(''required'', Primitive ''true'')])],
       fpath = [''f2'']\<rparr>]"
  let ?single = "[\<lparr>fvalue = exampleType [''f1''] [(''constructor'', exampleField ''constructor'' [])],
       fpath = [''f1'']\<rparr>,
      \<lparr>fvalue = exampleType [''f2''] [], fpath = [''f2'']\<rparr>]"
  have l: "2 \<le> length ?fragments" "2 \<le> length ?single"
    by simp_all
  have o: "list_all (\<lambda>f. isObjectType (fvalue f)) ?fragments"
    "list_all (\<lambda>f. isObjectType (fvalue f)) ?single"
    by (simp_all add: isObjectType_def exampleType_def)
  have w: "list_all (\<lambda>f. elemID (fvalue f) = [''salto'', ''obj''] \<and> wellFormedFields (fvalue f)) ?fragments"
    "list_all (\<lambda>f. elemID (fvalue f) = [''salto'', ''obj''] \<and> wellFormedFields (fvalue f)) ?single"
    by (simp_all add: wellFormedFields_def exampleType_def exampleField_def fields_def createNestedID_def)
  have u: "unionOfFieldNames ?fragments = [''a'', ''b'']"
    by code_simp
  have n: "length (filter (\<lambda>f. fields (fvalue f) \<noteq> []) ?fragments) = 1
         \<or> list_all (\<lambda>name. name \<notin> set objectPrototypeMembers) (unionOfFieldNames ?fragments)"
    unfolding u by (simp add: objectPrototypeMembers_def objectPrototypeFunctions_def)
  have s: "length (filter (\<lambda>f. fields (fvalue f) \<noteq> []) ?single) = 1
         \<or> list_all (\<lambda>name. name \<notin> set objectPrototypeMembers) (unionOfFieldNames ?single)"
    by (simp add: exampleType_def fields_def)
  have fa: "fieldFragments ''a'' ?fragments = [\<lparr>fvalue = exampleField ''a'' [], fpath = [''f1'']\<rparr>]"
    by code_simp
  have fb: "fieldFragments ''b'' ?fragments
      = [\<lparr>fvalue = exampleField ''b'' [(''label'', Primitive ''x'')], fpath = [''f1'']\<rparr>,
         \<lparr>fvalue = exampleField ''b'' [(''required'', Primitive ''true'')], fpath = [''f2'']\<rparr>]"
    by code_simp
  have f1: "filter (\<lambda>f. fields (fvalue f) \<noteq> []) ?fragments = ?fragments"
    by (simp add: exampleType_def fields_def)
  have f2: "filter (\<lambda>f. fields (fvalue f) \<noteq> []) ?single
      = [\<lparr>fvalue = exampleType [''f1''] [(''constructor'', exampleField ''constructor'' [])],
       fpath = [''f1'']\<rparr>]"
    by (simp add: exampleType_def fields_def)
  show ?thesis
    unfolding getFieldsPathHints_cases [OF l(1) o(1) w(1) n]
      getFieldsPathHints_cases [OF l(2) o(2) w(2) s] f1 f2 u
    apply (simp add: fa fb)
    apply (simp add: hint_eval)
    done
qed

text \<open>
  The claim as first stated fails where two fragments share an object type and only one
  of them has fields: the field \<open>a\<close> is defined in exactly one fragment, and the field
  hints hold no hint at \<open>salto.obj.field.a\<close> but the one hint at \<open>salto.obj.field\<close>.
\<close>

theorem getFieldsPathHints_single_owner_counterexample:
  "list_all (\<lambda>f. isObjectType (fvalue f))
     [\<lparr>fvalue = exampleType [''f1''] [(''a'', exampleField ''a'' [])], fpath = [''f1'']\<rparr>,
      \<lparr>fvalue = exampleType [''f2''] [], fpath = [''f2'']\<rparr>]
   \<and> fieldFragments ''a''
       [\<lparr>fvalue = exampleType [''f1''] [(''a'', exampleField ''a'' [])], fpath = [''f1'']\<rparr>,
        \<lparr>fvalue = exampleType [''f2''] [], fpath = [''f2'']\<rparr>]
       = [\<lparr>fvalue = exampleField ''a'' [], fpath = [''f1'']\<rparr>]
   \<and> getFullName (field_elemID (exampleField ''a'' [])) = ''salto.obj.field.a''
   \<and> getFieldsPathHints
       [\<lparr>fvalue = exampleType [''f1''] [(''a'', exampleField ''a'' [])], fpath = [''f1'']\<rparr>,
        \<lparr>fvalue = exampleType [''f2''] [], fpath = [''f2'']\<rparr>]
       = Inr [\<lparr>key = ''salto.obj.field'', value = [[''f1'']]\<rparr>]"
  by code_simp

text \<open>
  Claim C2 fails on the code where a field of one fragment is named like a member of
  \<^verbatim>\<open>Object.prototype\<close>. The claim has \<open>getElementPathHints\<close> emit, for every non-empty
  list of fragments of one element, the catch-all hint from the element's id to all the
  fragment paths, so that after indexing the lookup of that id is non-empty. For two
  fragments of the object type \<open>salto.obj\<close>, the first of path \<open>f1\<close> with the field \<open>b\<close>
  and the second of path \<open>f2\<close> with the field \<open>constructor\<close>, the code reads
  \<^verbatim>\<open>f.value.fields[fieldName]\<close>, which for the first fragment and the name
  \<open>constructor\<close> is the function inherited from \<^verbatim>\<open>Object.prototype\<close>: the fragment is
  kept, comes first, and the read of its \<^verbatim>\<open>elemID.getFullName\<close> raises a TypeError. No
  hint is emitted, \<open>updatePathIndex\<close> writes nothing, and the lookup of \<open>salto.obj\<close> is
  empty.
\<close>

theorem getElementPathHints_inherited_field:
  "getElementPathHints
     [\<lparr>fvalue = exampleType [''f1''] [(''b'', exampleField ''b'' [])], fpath = [''f1'']\<rparr>,
      \<lparr>fvalue = exampleType [''f2''] [(''constructor'', exampleField ''constructor'' [])],
       fpath = [''f2'']\<rparr>]
     = Inl TypeError
   \<and> lookupField [(''b'', exampleField ''b'' [])] ''constructor'' = Some (InheritedMember ''constructor'')
   \<and> updatePathIndex (take 2) []
       [exampleType [''f1''] [(''b'', exampleField ''b'' [])],
        exampleType [''f2''] [(''constructor'', exampleField ''constructor'' [])]] None
     = ([], Some TypeError)
   \<and> getFromPathIndex (take 2) [''salto'', ''obj'']
       (fst (updatePathIndex (take 2) []
          [exampleType [''f1''] [(''b'', exampleField ''b'' [])],
           exampleType [''f2''] [(''constructor'', exampleField ''constructor'' [])]] None))
     = []"
proof -
  let ?es = "[exampleType [''f1''] [(''b'', exampleField ''b'' [])],
        exampleType [''f2''] [(''constructor'', exampleField ''constructor'' [])]]"
  have h: "getElementPathHints
     [\<lparr>fvalue = exampleType [''f1''] [(''b'', exampleField ''b'' [])], fpath = [''f1'']\<rparr>,
      \<lparr>fvalue = exampleType [''f2''] [(''constructor'', exampleField ''constructor'' [])],
       fpath = [''f2'']\<rparr>]
     = Inl TypeError"
    by (simp add: hint_eval)
  have g: "groupBy (\<lambda>e. getFullName (elemID e)) ?es = [(''salto.obj'', ?es)]"
    by (simp add: groupBy_def exampleType_def getFullName_def getFullNameParts_def)
  have e: "getElementsPathHints ?es = Inl TypeError"
    unfolding getElementsPathHints_def g Let_def
    using h by (simp add: exampleType_def)
  have u: "updatePathIndex (take 2) [] ?es None = ([], Some TypeError)"
    unfolding updatePathIndex_def e by (simp add: updateIndex_def clear_def setAll_def)
  have l: "lookupField [(''b'', exampleField ''b'' [])] ''constructor'' = Some (InheritedMember ''constructor'')"
    by (simp add: lookupField_def objectPrototypeMembers_def objectPrototypeFunctions_def)
  show ?thesis
    unfolding u using h l
    by (simp add: getFromPathIndex_def getFromPathIndex_loop.simps get_def getFullName_def
        getFullNameParts_def)
qed

end
